theory Spec2Isabelle
  imports Main "HOL-Library.Sublist"
begin

section \<open>TradeL: signal detection, alert dispatch and subscription expiry\<close>

text \<open>
  A shallow embedding of the signal helpers of \<^verbatim>\<open>app.py\<close>
  (\<^verbatim>\<open>is_trading_signal\<close>, \<^verbatim>\<open>extract_signal\<close>), of the user management,
  alert fan-out and subscription checker of \<^verbatim>\<open>TradeLBot\<close>, of \<^verbatim>\<open>AlertSystem\<close>
  (\<^verbatim>\<open>alerts.py\<close>) and of the phone normalisation and send path of
  \<^verbatim>\<open>WhatsAppService\<close> (\<^verbatim>\<open>whatsapp.py\<close>).
\<close>

subsection \<open>Strings\<close>

text \<open>
  A Python \<^verbatim>\<open>str\<close> is modelled as a \<^typ>\<open>string\<close> of ASCII characters. The string
  methods below act on the ASCII range as Python does; a character outside it is neither
  a digit nor whitespace and is left alone by \<^verbatim>\<open>upper\<close>.
\<close>

definition is_digit :: "char \<Rightarrow> bool" where
  \<comment> \<open>the classes \<^verbatim>\<open>\d\<close> and \<^verbatim>\<open>[0-9]\<close>\<close>
  "is_digit c = (c \<in> set ''0123456789'')"

definition is_space :: "char \<Rightarrow> bool" where
  \<comment> \<open>\<^verbatim>\<open>str.isspace\<close> and the class \<^verbatim>\<open>\s\<close>: space, TAB, LF, VT, FF, CR and
      the separators FS, GS, RS, US\<close>
  "is_space c = (c \<in> set [CHR '' '', CHR 0x09, CHR 0x0A, CHR 0x0B, CHR 0x0C, CHR 0x0D,
                           CHR 0x1C, CHR 0x1D, CHR 0x1E, CHR 0x1F])"

definition upper_char :: "char \<Rightarrow> char" where
  "upper_char c =
     (case map_of (zip ''abcdefghijklmnopqrstuvwxyz'' ''ABCDEFGHIJKLMNOPQRSTUVWXYZ'') c of
        Some C \<Rightarrow> C
      | None \<Rightarrow> c)"

definition upper :: "string \<Rightarrow> string" where
  \<comment> \<open>\<^verbatim>\<open>text.upper()\<close>\<close>
  "upper s = map upper_char s"

definition startswith :: "string \<Rightarrow> string \<Rightarrow> bool" where
  \<comment> \<open>\<^verbatim>\<open>s.startswith(p)\<close>\<close>
  "startswith s p = prefix p s"

fun py_in :: "string \<Rightarrow> string \<Rightarrow> bool" where
  \<comment> \<open>\<^verbatim>\<open>sub in s\<close>: a left-to-right search for an occurrence of \<open>sub\<close>\<close>
  "py_in sub [] = (sub = [])"
| "py_in sub (c # cs) = (startswith (c # cs) sub \<or> py_in sub cs)"

definition strip :: "string \<Rightarrow> string" where
  \<comment> \<open>\<^verbatim>\<open>s.strip()\<close>: leading and trailing whitespace removed\<close>
  "strip s = rev (dropWhile is_space (rev (dropWhile is_space s)))"

definition replace_char :: "char \<Rightarrow> string \<Rightarrow> string \<Rightarrow> string" where
  \<comment> \<open>\<^verbatim>\<open>s.replace(old, new)\<close> for a one-character \<open>old\<close>\<close>
  "replace_char old new s = concat (map (\<lambda>c. if c = old then new else [c]) s)"

subsection \<open>The two regular expressions\<close>

text \<open>
  \<^verbatim>\<open>re.search\<close> tries the pattern at every position from the left and returns the
  first match. Both patterns of \<^verbatim>\<open>app.py\<close> are sequences of greedy repetitions of
  pairwise disjoint character classes, so at a given position the match is unique and
  backtracking never finds another one.
\<close>

definition match_number :: "string \<Rightarrow> string option" where
  \<comment> \<open>\<^verbatim>\<open>[0-9]+\.?[0-9]*\<close> matched at the start of \<open>s\<close>; the matched text\<close>
  "match_number s =
     (let ds = takeWhile is_digit s; r = dropWhile is_digit s in
      if ds = [] then None
      else (case r of
              [] \<Rightarrow> Some ds
            | c # r' \<Rightarrow> if c = CHR ''.'' then Some (ds @ [c] @ takeWhile is_digit r')
                        else Some ds))"

definition is_sep :: "char \<Rightarrow> bool" where
  \<comment> \<open>the class \<^verbatim>\<open>[:\s]\<close>\<close>
  "is_sep c = (c = CHR '':'' \<or> is_space c)"

definition match_label :: "string \<Rightarrow> string \<Rightarrow> string option" where
  \<comment> \<open>\<^verbatim>\<open>LABEL[:\s]+([0-9]+\.?[0-9]*)\<close> matched at the start of \<open>s\<close>; group 1\<close>
  "match_label label s =
     (if startswith s label then
        (let r = drop (length label) s in
         if takeWhile is_sep r = [] then None
         else match_number (dropWhile is_sep r))
      else None)"

fun re_search :: "(string \<Rightarrow> 'a option) \<Rightarrow> string \<Rightarrow> 'a option" where
  "re_search m [] = m []"
| "re_search m (c # cs) =
     (case m (c # cs) of Some g \<Rightarrow> Some g | None \<Rightarrow> re_search m cs)"

subsection \<open>Signal detection helpers (\<^verbatim>\<open>app.py\<close>)\<close>

definition SIGNAL_KEYWORDS :: "string list" where
  "SIGNAL_KEYWORDS =
     [''BUY'', ''SELL'', ''LONG'', ''SHORT'', ''TP:'', ''SL:'', ''ENTRY'', ''SIGNAL'']"

definition TRADING_PAIRS :: "string list" where
  "TRADING_PAIRS =
     [''BTC'', ''ETH'', ''XRP'', ''SOL'', ''ADA'', ''BNB'',
      ''USD'', ''EUR'', ''GBP'', ''JPY'', ''XAUUSD'', ''GOLD'']"

definition is_trading_signal :: "string \<Rightarrow> bool" where
  "is_trading_signal text =
     (if text = [] then False
      else
        (let up = upper text;
             has_keyword = list_ex (\<lambda>k. py_in k up) SIGNAL_KEYWORDS;
             has_pair = list_ex (\<lambda>p. py_in p up) TRADING_PAIRS;
             has_numbers = (re_search match_number text \<noteq> None)
         in has_keyword \<and> (has_pair \<or> has_numbers)))"

text \<open>
  The dictionary returned by \<^verbatim>\<open>extract_signal\<close>. The timestamp is the reading of
  the clock, \<^verbatim>\<open>datetime.now()\<close>, in microseconds; the clock is an argument.
\<close>

record signal_data =
  message :: string
  source :: string
  pair :: string
  action :: string
  entry :: string
  tp :: string
  sl :: string
  priority :: string
  timestamp :: int

definition find_value :: "string \<Rightarrow> string \<Rightarrow> string" where
  \<comment> \<open>the local function of \<^verbatim>\<open>extract_signal\<close>; \<open>up\<close> is its variable \<^verbatim>\<open>upper\<close>\<close>
  "find_value up label =
     (case re_search (match_label label) up of Some g \<Rightarrow> g | None \<Rightarrow> ''N/A'')"

fun first_pair :: "string \<Rightarrow> string list \<Rightarrow> string" where
  \<comment> \<open>the loop \<^verbatim>\<open>for p in TRADING_PAIRS: if p in upper: pair = p; break\<close>\<close>
  "first_pair up [] = ''''"
| "first_pair up (p # ps) = (if py_in p up then p else first_pair up ps)"

definition extract_signal :: "int \<Rightarrow> string \<Rightarrow> signal_data" where
  "extract_signal now text =
     (let up = upper text;
          act = (if py_in ''BUY'' up \<or> py_in ''LONG'' up then ''BUY''
                 else if py_in ''SELL'' up \<or> py_in ''SHORT'' up then ''SELL''
                 else '''');
          pr = first_pair up TRADING_PAIRS;
          prio = (if act \<in> set [''BUY'', ''SELL''] then ''high'' else ''medium'')
      in \<lparr> message = text,
           source = ''whatsapp'',
           pair = pr,
           action = act,
           entry = find_value up ''ENTRY'',
           tp = find_value up ''TP'',
           sl = find_value up ''SL'',
           priority = prio,
           timestamp = now \<rparr>)"

subsection \<open>Phone normalisation (\<^verbatim>\<open>whatsapp.py\<close>)\<close>

definition normalise_phone :: "string \<Rightarrow> string" where
  \<comment> \<open>\<^verbatim>\<open>WhatsAppService._normalise_phone\<close>\<close>
  "normalise_phone phone =
     (let p1 = replace_char CHR ''-'' '''' (replace_char CHR '' '' '''' (strip phone));
          p2 = (if startswith p1 ''+'' then drop 1 p1 else p1);
          p3 = (if startswith p2 ''0'' then ''234'' @ drop 1 p2 else p2)
      in p3)"

subsection \<open>Subscribers and the bot's state\<close>

text \<open>
  Time is the naive local clock of \<^verbatim>\<open>datetime.now()\<close>, counted in microseconds.
  The \<^verbatim>\<open>expiry\<close> entry of a user dictionary is \<^verbatim>\<open>None\<close> (written by
  \<^verbatim>\<open>add_user\<close>) or the \<^verbatim>\<open>isoformat()\<close> text of a naive datetime (written by
  \<^verbatim>\<open>activate_user\<close>), which \<^verbatim>\<open>datetime.fromisoformat\<close> reads back exactly; a
  non-empty text that \<^verbatim>\<open>fromisoformat\<close> rejects with \<^verbatim>\<open>ValueError\<close> is the third
  case, the one \<^verbatim>\<open>check_subscriptions\<close> catches.
\<close>

datatype expiry_field =
    ExpiryNone
  | ExpiryIso int
  | ExpiryMalformed

definition timedelta_days :: "int \<Rightarrow> int" where
  "timedelta_days d = d * 86400000000"

text \<open>
  A user dictionary. \<open>user_id\<close> is the key \<^verbatim>\<open>"id"\<close>. An empty \<open>phone\<close> or
  \<open>push_token\<close> stands for every falsy value of \<^verbatim>\<open>user.get(...)\<close> (missing,
  \<^verbatim>\<open>None\<close>, empty); \<open>alerts_received\<close> is \<open>None\<close> when the key is missing.
\<close>

record user =
  user_id :: string
  name :: string
  email :: string
  phone :: string
  country :: string
  plan :: string
  status :: string
  joined :: int
  expiry :: expiry_field
  alerts_received :: "int option"
  push_token :: string

record signal = signal_data +
  signal_id :: string

datatype level = DEBUG | INFO | WARNING | ERROR

text \<open>The log statements of the three modules, by the values they format.\<close>

datatype log_msg =
    Activated string                  \<comment> \<open>\<^verbatim>\<open>app.py\<close> 106: user id\<close>
  | UserNotFound string               \<comment> \<open>\<^verbatim>\<open>app.py\<close> 108: user id\<close>
  | Deactivated string                \<comment> \<open>\<^verbatim>\<open>app.py\<close> 116: user id\<close>
  | SendingAlerts nat                 \<comment> \<open>\<^verbatim>\<open>app.py\<close> 157: number of active users\<close>
  | AlertSent string string           \<comment> \<open>\<^verbatim>\<open>app.py\<close> 165: name, phone\<close>
  | SubscriptionExpired string string \<comment> \<open>\<^verbatim>\<open>app.py\<close> 182: user id, name\<close>
  | WhatsAppSent string string        \<comment> \<open>\<^verbatim>\<open>alerts.py\<close> 31: name, phone\<close>
  | WhatsAppFailed string string      \<comment> \<open>\<^verbatim>\<open>alerts.py\<close> 33: name, result\<close>
  | WhatsAppException string string   \<comment> \<open>\<^verbatim>\<open>alerts.py\<close> 36: name, exception\<close>
  | NoPushToken string                \<comment> \<open>\<^verbatim>\<open>alerts.py\<close> 51: name\<close>
  | OneSignalNotConfigured            \<comment> \<open>\<^verbatim>\<open>alerts.py\<close> 61\<close>
  | PushSent string                   \<comment> \<open>\<^verbatim>\<open>alerts.py\<close> 98: notification id\<close>
  | PushIssue                         \<comment> \<open>\<^verbatim>\<open>alerts.py\<close> 100\<close>
  | OneSignalTimeout                  \<comment> \<open>\<^verbatim>\<open>alerts.py\<close> 103\<close>
  | PushError string                  \<comment> \<open>\<^verbatim>\<open>alerts.py\<close> 106: exception\<close>
  | MessageSent string string         \<comment> \<open>\<^verbatim>\<open>whatsapp.py\<close> 60: destination, SID\<close>
  | SendFailed string string          \<comment> \<open>\<^verbatim>\<open>whatsapp.py\<close> 64: number, exception\<close>

text \<open>
  What the program does to the outside world, in the order it does it: a log line, a
  rewrite of \<^verbatim>\<open>data/users.json\<close> with the collection written, a call of the Twilio
  client (\<^verbatim>\<open>client.messages.create\<close>, with its destination), a call of
  \<^verbatim>\<open>requests.post\<close> to OneSignal (with the push token). The text of a message and
  the payload of a notification are functions of the signal, which stands for them here.
\<close>

datatype effect =
    Log level log_msg
  | SaveUsers "user list"
  | MessagesCreate string signal
  | RequestsPost string signal

record bot =
  users :: "user list"
  trace :: "effect list"

definition logger :: "level \<Rightarrow> log_msg \<Rightarrow> effect list \<Rightarrow> effect list" where
  "logger l m tr = tr @ [Log l m]"

definition save_users :: "bot \<Rightarrow> bot" where
  "save_users b = b\<lparr>trace := trace b @ [SaveUsers (users b)]\<rparr>"

fun written :: "effect \<Rightarrow> user list option" where
  "written (SaveUsers us) = Some us"
| "written _ = None"

definition writes :: "effect list \<Rightarrow> user list list" where
  \<comment> \<open>the storage writes of a trace, each with the collection it wrote\<close>
  "writes tr = List.map_filter written tr"

subsection \<open>User management (\<^verbatim>\<open>TradeLBot\<close>)\<close>

fun activate_loop :: "int \<Rightarrow> string \<Rightarrow> user list \<Rightarrow> user list option" where
  \<comment> \<open>the loop of \<^verbatim>\<open>activate_user\<close>: the first user with the id is updated;
      \<open>None\<close> when the loop ends without a match\<close>
  "activate_loop now uid [] = None"
| "activate_loop now uid (u # us) =
     (if user_id u = uid
      then Some (u\<lparr>status := ''active'',
                   expiry := ExpiryIso (now + timedelta_days 30)\<rparr> # us)
      else map_option ((#) u) (activate_loop now uid us))"

definition activate_user :: "int \<Rightarrow> string \<Rightarrow> bot \<Rightarrow> bool \<times> bot" where
  "activate_user now uid b =
     (case activate_loop now uid (users b) of
        Some us \<Rightarrow>
          (let b1 = save_users (b\<lparr>users := us\<rparr>)
           in (True, b1\<lparr>trace := logger INFO (Activated uid) (trace b1)\<rparr>))
      | None \<Rightarrow> (False, b\<lparr>trace := logger WARNING (UserNotFound uid) (trace b)\<rparr>))"

fun deactivate_loop :: "string \<Rightarrow> user list \<Rightarrow> user list option" where
  "deactivate_loop uid [] = None"
| "deactivate_loop uid (u # us) =
     (if user_id u = uid
      then Some (u\<lparr>status := ''inactive''\<rparr> # us)
      else map_option ((#) u) (deactivate_loop uid us))"

definition deactivate_user :: "string \<Rightarrow> bot \<Rightarrow> bool \<times> bot" where
  "deactivate_user uid b =
     (case deactivate_loop uid (users b) of
        Some us \<Rightarrow>
          (let b1 = save_users (b\<lparr>users := us\<rparr>)
           in (True, b1\<lparr>trace := logger INFO (Deactivated uid) (trace b1)\<rparr>))
      | None \<Rightarrow> (False, b))"

definition get_active_users :: "bot \<Rightarrow> user list" where
  "get_active_users b = filter (\<lambda>u. status u = ''active'') (users b)"

subsection \<open>Subscription checker\<close>

text \<open>
  One iteration of the loop of \<^verbatim>\<open>check_subscriptions\<close>: the user, the log lines
  and the flag \<^verbatim>\<open>changed\<close> after it.
\<close>

definition check_user :: "int \<Rightarrow> user \<Rightarrow> effect list \<Rightarrow> bool \<Rightarrow> user \<times> effect list \<times> bool" where
  "check_user now u tr changed =
     (if status u = ''active'' \<and> expiry u \<noteq> ExpiryNone then
        (case expiry u of
           ExpiryIso e \<Rightarrow>
             if now > e
             then (u\<lparr>status := ''inactive''\<rparr>,
                   logger INFO (SubscriptionExpired (user_id u) (name u)) tr,
                   True)
             else (u, tr, changed)
         | ExpiryMalformed \<Rightarrow> (u, tr, changed)  \<comment> \<open>\<^verbatim>\<open>except ValueError: pass\<close>\<close>
         | ExpiryNone \<Rightarrow> (u, tr, changed))
      else (u, tr, changed))"

fun check_loop :: "int \<Rightarrow> user list \<Rightarrow> effect list \<Rightarrow> bool \<Rightarrow> user list \<times> effect list \<times> bool" where
  "check_loop now [] tr changed = ([], tr, changed)"
| "check_loop now (u # us) tr changed =
     (case check_user now u tr changed of
        (u', tr1, changed1) \<Rightarrow>
          (case check_loop now us tr1 changed1 of
             (us', tr2, changed2) \<Rightarrow> (u' # us', tr2, changed2)))"

definition check_subscriptions :: "int \<Rightarrow> bot \<Rightarrow> bot" where
  "check_subscriptions now b =
     (case check_loop now (users b) (trace b) False of
        (us, tr, changed) \<Rightarrow>
          (let b1 = b\<lparr>users := us, trace := tr\<rparr>
           in if changed then save_users b1 else b1))"

subsection \<open>The environment of the channels\<close>

text \<open>
  What the two providers answer is not decided by the program. The environment holds
  the four environment variables and, for each provider, the outcome of a call as a
  function of everything done so far and of the call's arguments, so that a provider may
  answer two equal calls differently.
\<close>

datatype create_result =
    Created string        \<comment> \<open>\<^verbatim>\<open>response.sid\<close>\<close>
  | CreateRaises string   \<comment> \<open>any exception of \<^verbatim>\<open>client.messages.create\<close>, as \<^verbatim>\<open>str(e)\<close>\<close>

datatype post_result =
    PostResponse nat "(string \<times> string) list"
      \<comment> \<open>\<^verbatim>\<open>response.status_code\<close> and the dictionary \<^verbatim>\<open>response.json()\<close>\<close>
  | PostTimeout           \<comment> \<open>\<^verbatim>\<open>requests.exceptions.Timeout\<close>\<close>
  | PostRaises string     \<comment> \<open>any other exception raised inside the \<^verbatim>\<open>try\<close>\<close>

record env =
  TWILIO_SID :: "string option"
  TWILIO_TOKEN :: "string option"
  ONESIGNAL_APP_ID :: string
  ONESIGNAL_API_KEY :: string
  messages_create :: "effect list \<Rightarrow> string \<Rightarrow> signal \<Rightarrow> create_result"
  requests_post :: "effect list \<Rightarrow> string \<Rightarrow> signal \<Rightarrow> post_result"

definition truthy :: "string option \<Rightarrow> bool" where
  \<comment> \<open>the truth value of \<^verbatim>\<open>os.environ.get(name)\<close>\<close>
  "truthy v = (case v of None \<Rightarrow> False | Some x \<Rightarrow> x \<noteq> '''')"

subsection \<open>\<^verbatim>\<open>WhatsAppService\<close> (\<^verbatim>\<open>whatsapp.py\<close>)\<close>

definition WhatsAppService_init :: "env \<Rightarrow> string option" where
  \<comment> \<open>the constructor: \<open>Some\<close> of the message of the \<^verbatim>\<open>EnvironmentError\<close> it
      raises, \<open>None\<close> when it returns\<close>
  "WhatsAppService_init ev =
     (if \<not> truthy (TWILIO_SID ev) \<or> \<not> truthy (TWILIO_TOKEN ev)
      then Some ''TWILIO_SID and TWILIO_TOKEN environment variables must be set.''
      else None)"

definition send_message ::
    "env \<Rightarrow> string \<Rightarrow> signal \<Rightarrow> effect list \<Rightarrow> (bool \<times> string) \<times> effect list" where
  "send_message ev to_number sig tr =
     (let normalised = normalise_phone to_number;
          to_whatsapp = ''whatsapp:+'' @ normalised;
          tr1 = tr @ [MessagesCreate to_whatsapp sig]
      in case messages_create ev tr to_whatsapp sig of
           Created sid \<Rightarrow>
             ((True, sid), logger INFO (MessageSent to_whatsapp sid) tr1)
         | CreateRaises e \<Rightarrow>
             ((False, e), logger ERROR (SendFailed to_number e) tr1))"

definition send_alert ::
    "env \<Rightarrow> string \<Rightarrow> signal \<Rightarrow> effect list \<Rightarrow> (bool \<times> string) \<times> effect list" where
  "send_alert ev to_number sig tr = send_message ev to_number sig tr"

subsection \<open>\<^verbatim>\<open>AlertSystem\<close> (\<^verbatim>\<open>alerts.py\<close>)\<close>

definition send_whatsapp_alert ::
    "env \<Rightarrow> user \<Rightarrow> signal \<Rightarrow> effect list \<Rightarrow> bool \<times> effect list" where
  "send_whatsapp_alert ev u sig tr =
     (case WhatsAppService_init ev of
        Some e \<Rightarrow> (False, logger ERROR (WhatsAppException (name u) e) tr)
      | None \<Rightarrow>
          (case send_alert ev (phone u) sig tr of
             ((success, result), tr1) \<Rightarrow>
               if success
               then (True, logger INFO (WhatsAppSent (name u) (phone u)) tr1)
               else (False, logger ERROR (WhatsAppFailed (name u) result) tr1)))"

definition result_id :: "(string \<times> string) list \<Rightarrow> string option" where
  \<comment> \<open>\<^verbatim>\<open>result.get("id")\<close> when it is truthy\<close>
  "result_id result =
     (case map_of result ''id'' of
        None \<Rightarrow> None
      | Some v \<Rightarrow> if v = '''' then None else Some v)"

definition send_push_notification ::
    "env \<Rightarrow> string \<Rightarrow> signal \<Rightarrow> effect list \<Rightarrow> (string \<times> string) list option \<times> effect list" where
  "send_push_notification ev token sig tr =
     (if ONESIGNAL_APP_ID ev = '''' \<or> ONESIGNAL_API_KEY ev = ''''
      then (None, logger DEBUG OneSignalNotConfigured tr)
      else
        (let tr1 = tr @ [RequestsPost token sig]
         in case requests_post ev tr token sig of
              PostResponse code result \<Rightarrow>
                (case (if code = 200 then result_id result else None) of
                   Some i \<Rightarrow> (Some result, logger INFO (PushSent i) tr1)
                 | None \<Rightarrow> (Some result, logger WARNING PushIssue tr1))
            | PostTimeout \<Rightarrow> (None, logger ERROR OneSignalTimeout tr1)
            | PostRaises e \<Rightarrow> (None, logger ERROR (PushError e) tr1)))"

definition trigger_phone_alarm :: "env \<Rightarrow> user \<Rightarrow> signal \<Rightarrow> effect list \<Rightarrow> effect list" where
  "trigger_phone_alarm ev u sig tr =
     (if push_token u \<noteq> ''''
      then snd (send_push_notification ev (push_token u) sig tr)
      else logger DEBUG (NoPushToken (name u)) tr)"

subsection \<open>Alert fan-out (\<^verbatim>\<open>TradeLBot.trigger_alerts\<close>)\<close>

text \<open>
  The body of the loop for one active user. Neither call inside the \<^verbatim>\<open>try\<close> can
  raise (\<^verbatim>\<open>send_whatsapp_alert\<close> catches every exception itself, and the push path
  catches those of its request), so the \<^verbatim>\<open>except\<close> branch of the loop is never taken
  and has no counterpart here.
\<close>

definition alert_user :: "env \<Rightarrow> signal \<Rightarrow> user \<Rightarrow> effect list \<Rightarrow> user \<times> effect list" where
  "alert_user ev sig u tr =
     (let tr1 = (if phone u \<noteq> ''''
                 then (case send_whatsapp_alert ev u sig tr of
                         (sent, tr') \<Rightarrow> trigger_phone_alarm ev u sig tr')
                 else tr);
          u1 = u\<lparr>alerts_received :=
                   Some ((case alerts_received u of None \<Rightarrow> 0 | Some n \<Rightarrow> n) + 1)\<rparr>
      in (u1, logger INFO (AlertSent (name u1) (phone u1)) tr1))"

text \<open>
  \<^verbatim>\<open>active_users\<close> holds the very dictionaries of \<^verbatim>\<open>self.users\<close> whose status is
  active, so the loop over it updates \<^verbatim>\<open>self.users\<close> at those entries, in the order
  of the collection, and leaves the others as they are.
\<close>

fun alert_loop :: "env \<Rightarrow> signal \<Rightarrow> user list \<Rightarrow> effect list \<Rightarrow> user list \<times> effect list" where
  "alert_loop ev sig [] tr = ([], tr)"
| "alert_loop ev sig (u # us) tr =
     (if status u = ''active''
      then (case alert_user ev sig u tr of
              (u', tr1) \<Rightarrow>
                (case alert_loop ev sig us tr1 of
                   (us', tr2) \<Rightarrow> (u' # us', tr2)))
      else (case alert_loop ev sig us tr of
              (us', tr2) \<Rightarrow> (u # us', tr2)))"

definition trigger_alerts :: "env \<Rightarrow> signal \<Rightarrow> bot \<Rightarrow> bot" where
  "trigger_alerts ev sig b =
     (let active_users = get_active_users b;
          tr0 = logger INFO (SendingAlerts (length active_users)) (trace b)
      in case alert_loop ev sig (users b) tr0 of
           (us, tr) \<Rightarrow> save_users (b\<lparr>users := us, trace := tr\<rparr>))"

subsection \<open>Vocabulary of the properties\<close>

definition numeral_string :: "string \<Rightarrow> bool" where
  \<comment> \<open>a numeral as text: digits, then possibly a point and further digits\<close>
  "numeral_string n =
     (takeWhile is_digit n \<noteq> [] \<and>
      (case dropWhile is_digit n of
         [] \<Rightarrow> True
       | c # fs \<Rightarrow> c = CHR ''.'' \<and> list_all is_digit fs))"

definition contains_numeral :: "string \<Rightarrow> bool" where
  \<comment> \<open>the text contains at least one decimal or integer numeral\<close>
  "contains_numeral text = list_ex numeral_string (sublists text)"

definition phone_format :: "string \<Rightarrow> bool" where
  \<comment> \<open>an optional \<open>+\<close>, then digits, spaces and hyphens only\<close>
  "phone_format p =
     list_all (\<lambda>c. is_digit c \<or> c = CHR '' '' \<or> c = CHR ''-'')
       (if startswith p ''+'' then drop 1 p else p)"

definition is_expired :: "int \<Rightarrow> user \<Rightarrow> bool" where
  \<comment> \<open>an active user whose stored expiry is a date before \<open>now\<close>\<close>
  "is_expired now u =
     (status u = ''active'' \<and> (case expiry u of ExpiryIso e \<Rightarrow> e < now | _ \<Rightarrow> False))"

definition eligible :: "user \<Rightarrow> bool" where
  \<comment> \<open>an active user with a contact address\<close>
  "eligible u = (status u = ''active'' \<and> phone u \<noteq> '''')"

definition alerts_count :: "user \<Rightarrow> int" where
  \<comment> \<open>\<^verbatim>\<open>user.get("alerts_received", 0)\<close>\<close>
  "alerts_count u = (case alerts_received u of None \<Rightarrow> 0 | Some n \<Rightarrow> n)"

definition find_user :: "string \<Rightarrow> user list \<Rightarrow> user option" where
  \<comment> \<open>the first user of the collection with the id\<close>
  "find_user uid us = find (\<lambda>u. user_id u = uid) us"

definition destination :: "user \<Rightarrow> string" where
  \<comment> \<open>the address the text-message channel sends to\<close>
  "destination u = ''whatsapp:+'' @ normalise_phone (phone u)"

text \<open>
  Every call of \<^verbatim>\<open>send_whatsapp_alert\<close> ends with exactly one of three log lines,
  each with the user's name: the calls of a trace are read off these lines.
\<close>

fun whatsapp_outcome :: "effect \<Rightarrow> string option" where
  "whatsapp_outcome (Log l (WhatsAppSent n p)) = Some n"
| "whatsapp_outcome (Log l (WhatsAppFailed n r)) = Some n"
| "whatsapp_outcome (Log l (WhatsAppException n e)) = Some n"
| "whatsapp_outcome _ = None"

definition attempted :: "effect list \<Rightarrow> string list" where
  "attempted tr = List.map_filter whatsapp_outcome tr"

fun whatsapp_failure :: "effect \<Rightarrow> string option" where
  "whatsapp_failure (Log ERROR (WhatsAppFailed n r)) = Some n"
| "whatsapp_failure _ = None"

definition failures_logged :: "effect list \<Rightarrow> string list" where
  "failures_logged tr = List.map_filter whatsapp_failure tr"

fun created :: "effect \<Rightarrow> string option" where
  "created (MessagesCreate dest sig) = Some dest"
| "created _ = None"

definition transport_calls :: "effect list \<Rightarrow> string list" where
  \<comment> \<open>the destinations of the calls of the Twilio client\<close>
  "transport_calls tr = List.map_filter created tr"

fun posted :: "effect \<Rightarrow> string option" where
  "posted (RequestsPost token sig) = Some token"
| "posted _ = None"

definition push_calls :: "effect list \<Rightarrow> string list" where
  \<comment> \<open>the tokens of the requests to the push provider\<close>
  "push_calls tr = List.map_filter posted tr"

definition sweep_user :: "int \<Rightarrow> user \<Rightarrow> user" where
  \<comment> \<open>what a sweep at \<open>now\<close> makes of one user\<close>
  "sweep_user now u = (if is_expired now u then u\<lparr>status := ''inactive''\<rparr> else u)"

definition bump :: "user \<Rightarrow> user" where
  \<comment> \<open>the user with one more alert counted\<close>
  "bump u = u\<lparr>alerts_received := Some (alerts_count u + 1)\<rparr>"

definition subscriber :: "string \<Rightarrow> string \<Rightarrow> string \<Rightarrow> expiry_field \<Rightarrow> user" where
  \<comment> \<open>a user as \<^verbatim>\<open>add_user\<close> lays it out, for the examples\<close>
  "subscriber uid ph st ex =
     \<lparr> user_id = uid, name = ''Trader'', email = '''', phone = ph, country = ''NG'',
       plan = ''basic'', status = st, joined = 0, expiry = ex,
       alerts_received = Some 0, push_token = '''' \<rparr>"

definition always_raises :: "env \<Rightarrow> bool" where
  \<comment> \<open>every call of the Twilio client raises\<close>
  "always_raises ev = (\<forall>tr dest sig. \<exists>e. messages_create ev tr dest sig = CreateRaises e)"

definition example_signal :: signal where
  "example_signal =
     \<lparr> message = ''BUY BTCUSD entry 50000 tp 51500 sl 49000'', source = ''whatsapp'',
       pair = ''BTC'', action = ''BUY'', entry = ''50000'', tp = ''51500'', sl = ''49000'',
       priority = ''high'', timestamp = 0, signal_id = ''SIG20240101000000'' \<rparr>"

definition provider_env :: "create_result \<Rightarrow> string \<Rightarrow> env" where
  \<comment> \<open>Twilio configured and answering \<open>r\<close> to every call; \<open>k\<close> is the value of both
      OneSignal variables, empty when they are unset\<close>
  "provider_env r k =
     \<lparr> TWILIO_SID = Some ''AC0000'', TWILIO_TOKEN = Some ''secret'',
       ONESIGNAL_APP_ID = k, ONESIGNAL_API_KEY = k,
       messages_create = (\<lambda>tr dest sig. r),
       requests_post = (\<lambda>tr token sig. PostTimeout) \<rparr>"

definition trimmed :: "string \<Rightarrow> bool" where
  \<comment> \<open>no whitespace at either end\<close>
  "trimmed q = (q = [] \<or> (\<not> is_space (hd q) \<and> \<not> is_space (last q)))"

definition unspaced :: "string \<Rightarrow> string" where
  \<comment> \<open>every space and every hyphen removed, every other character kept, in order\<close>
  "unspaced s = filter (\<lambda>c. c \<noteq> CHR '' '' \<and> c \<noteq> CHR ''-'') s"

section \<open>Properties\<close>

subsection \<open>Substring search and the number pattern\<close>

lemma py_in_sublist: "py_in sub s \<longleftrightarrow> sublist sub s"
  by (induction s) (simp_all add: startswith_def sublist_Cons_right)

lemma match_number_None: "match_number s = None \<longleftrightarrow> (s = [] \<or> \<not> is_digit (hd s))"
  by (cases s) (auto simp: match_number_def Let_def split: list.splits)

lemma re_search_number: "re_search match_number s \<noteq> None \<longleftrightarrow> (\<exists>c \<in> set s. is_digit c)"
proof (induction s)
  case Nil
  show ?case by (simp add: match_number_None)
next
  case (Cons c cs)
  show ?case
  proof (cases "match_number (c # cs)")
    case None
    then have "\<not> is_digit c" by (simp add: match_number_None)
    with None Cons show ?thesis by simp
  next
    case (Some g)
    then have "is_digit c" using match_number_None [of "c # cs"] by auto
    with Some show ?thesis by auto
  qed
qed

lemma re_search_Some: "re_search m s = Some g \<Longrightarrow> \<exists>t. suffix t s \<and> m t = Some g"
proof (induction s)
  case Nil
  then show ?case by auto
next
  case (Cons c cs)
  show ?case
  proof (cases "m (c # cs)")
    case None
    with Cons.prems have "re_search m cs = Some g" by simp
    from Cons.IH [OF this] show ?thesis by (auto simp: suffix_Cons)
  next
    case (Some h)
    with Cons.prems have "m (c # cs) = Some g" by simp
    then show ?thesis by blast
  qed
qed

lemma not_digit_dot: "\<not> is_digit CHR ''.''"
  by (simp add: is_digit_def)

lemma all_digit_takeWhile: "list_all is_digit (takeWhile is_digit s)"
  by (induction s) auto

lemma numeral_string_digits:
  assumes "ds \<noteq> []" and "list_all is_digit ds"
  shows "numeral_string ds"
proof -
  from assms(2) have t: "takeWhile is_digit ds = ds" and d: "dropWhile is_digit ds = []"
    by (simp_all add: list_all_iff)
  show ?thesis unfolding numeral_string_def t d using assms(1) by simp
qed

lemma numeral_string_fraction:
  assumes "ds \<noteq> []" and "list_all is_digit ds" and "list_all is_digit fs"
  shows "numeral_string (ds @ [CHR ''.''] @ fs)"
proof -
  from assms(2) have t: "takeWhile is_digit (ds @ [CHR ''.''] @ fs) = ds"
    by (simp add: list_all_iff takeWhile_append2 not_digit_dot)
  from assms(2) have d: "dropWhile is_digit (ds @ [CHR ''.''] @ fs) = CHR ''.'' # fs"
    by (simp add: list_all_iff dropWhile_append2 not_digit_dot)
  show ?thesis unfolding numeral_string_def t d using assms(1,3) by simp
qed

lemma match_number_numeral:
  assumes "match_number s = Some g"
  shows "numeral_string g"
proof -
  let ?ds = "takeWhile is_digit s"
  from assms have ne: "?ds \<noteq> []"
    by (auto simp: match_number_def Let_def split: if_splits)
  have dig: "list_all is_digit ?ds" by (rule all_digit_takeWhile)
  from assms ne consider "g = ?ds"
    | r where "g = ?ds @ [CHR ''.''] @ takeWhile is_digit r"
    by (auto simp: match_number_def Let_def split: if_splits list.splits)
  then show ?thesis
  proof cases
    case 1
    with ne dig show ?thesis by (simp add: numeral_string_digits)
  next
    case 2
    with ne dig show ?thesis
      using numeral_string_fraction [OF ne dig all_digit_takeWhile] by simp
  qed
qed

lemma numeral_string_has_digit: "numeral_string n \<Longrightarrow> \<exists>c \<in> set n. is_digit c"
  by (cases n) (auto simp: numeral_string_def)

lemma contains_numeral_iff: "contains_numeral text \<longleftrightarrow> (\<exists>c \<in> set text. is_digit c)"
proof
  assume "contains_numeral text"
  then obtain n where n: "numeral_string n" and sub: "sublist n text"
    by (auto simp: contains_numeral_def list_ex_iff)
  from numeral_string_has_digit [OF n] obtain c where "c \<in> set n" and "is_digit c" by blast
  moreover from sub have "set n \<subseteq> set text" by (auto simp: sublist_def)
  ultimately show "\<exists>c \<in> set text. is_digit c" by blast
next
  assume "\<exists>c \<in> set text. is_digit c"
  then obtain c where c: "c \<in> set text" and d: "is_digit c" by blast
  from d have "numeral_string [c]" by (simp add: numeral_string_digits)
  moreover from c obtain ps ss where "text = ps @ [c] @ ss"
    by (auto simp: in_set_conv_decomp)
  then have "sublist [c] text" unfolding sublist_def by blast
  ultimately show "contains_numeral text"
    by (auto simp: contains_numeral_def list_ex_iff)
qed

lemma is_digit_upper_char: "is_digit (upper_char c) = is_digit c"
  by (auto simp: upper_char_def is_digit_def)

lemma contains_numeral_upper: "contains_numeral (upper text) = contains_numeral text"
  by (simp add: contains_numeral_iff upper_def is_digit_upper_char)

subsection \<open>The classifier\<close>

text \<open>
  Claim C2. For every text, \<open>is_trading_signal\<close> holds exactly when the upper-cased
  text contains one of the eight keywords and, besides, contains one of the instrument
  pairs or the text contains a numeral. In particular a keyword with a numeral is enough,
  and a text with neither a pair nor a numeral is rejected whatever keyword it has. A
  numeral occurs in the upper-cased text exactly when it occurs in the text.
\<close>

theorem is_trading_signal_iff:
  "(is_trading_signal text \<longleftrightarrow>
      (\<exists>k \<in> set SIGNAL_KEYWORDS. sublist k (upper text)) \<and>
      ((\<exists>p \<in> set TRADING_PAIRS. sublist p (upper text)) \<or> contains_numeral text)) \<and>
   ((\<exists>k \<in> set SIGNAL_KEYWORDS. sublist k (upper text)) \<and> contains_numeral text
      \<longrightarrow> is_trading_signal text) \<and>
   ((\<forall>p \<in> set TRADING_PAIRS. \<not> sublist p (upper text)) \<and> \<not> contains_numeral text
      \<longrightarrow> \<not> is_trading_signal text) \<and>
   contains_numeral (upper text) = contains_numeral text"
proof -
  have main: "is_trading_signal text \<longleftrightarrow>
      (\<exists>k \<in> set SIGNAL_KEYWORDS. sublist k (upper text)) \<and>
      ((\<exists>p \<in> set TRADING_PAIRS. sublist p (upper text)) \<or> contains_numeral text)"
  proof (cases "text = []")
    case True
    then show ?thesis
      by (simp add: is_trading_signal_def upper_def SIGNAL_KEYWORDS_def)
  next
    case False
    then show ?thesis
      by (simp add: is_trading_signal_def Let_def list_ex_iff py_in_sublist
          re_search_number contains_numeral_iff del: not_None_eq)
  qed
  then show ?thesis using contains_numeral_upper by blast
qed

theorem is_trading_signal_iff_witness:
  "(\<exists>k \<in> set SIGNAL_KEYWORDS. sublist k (upper ''sell 1.25'')) \<and>
   contains_numeral ''sell 1.25'' \<and>
   is_trading_signal ''sell 1.25'' \<and>
   \<not> (\<exists>p \<in> set TRADING_PAIRS. sublist p (upper ''BUY now'')) \<and>
   \<not> contains_numeral ''BUY now'' \<and>
   \<not> is_trading_signal ''BUY now''"
proof -
  have k: "\<exists>k \<in> set SIGNAL_KEYWORDS. sublist k (upper ''sell 1.25'')"
    by code_simp
  have n: "contains_numeral ''sell 1.25''"
    by (simp add: contains_numeral_iff is_digit_def)
  have p: "\<not> (\<exists>p \<in> set TRADING_PAIRS. sublist p (upper ''BUY now''))"
    by code_simp
  have m: "\<not> contains_numeral ''BUY now''"
    by (simp add: contains_numeral_iff is_digit_def)
  from k n have "is_trading_signal ''sell 1.25''"
    using is_trading_signal_iff [of "''sell 1.25''"] by blast
  moreover from p m have "\<not> is_trading_signal ''BUY now''"
    using is_trading_signal_iff [of "''BUY now''"] by blast
  ultimately show ?thesis using k n p m by blast
qed

lemma first_pair_find:
  "first_pair up ps = (case find (\<lambda>p. sublist p up) ps of None \<Rightarrow> '''' | Some p \<Rightarrow> p)"
  by (induction ps) (simp_all add: py_in_sublist)

text \<open>
  Claim C3. On the text \<^verbatim>\<open>BUY BTCUSD entry 50000 tp 51500 sl 49000\<close> the classifier
  answers true and the extraction gives the action BUY, the pair BTC, the entry 50000,
  the take-profit 51500, the stop-loss 49000 and the priority high. The pair of any text
  is the first entry of \<open>TRADING_PAIRS\<close>, in the order of that list, that occurs in the
  upper-cased text: a text that names USD before BTC still gets the pair BTC.
\<close>

theorem extract_signal_scenario:
  "is_trading_signal ''BUY BTCUSD entry 50000 tp 51500 sl 49000'' \<and>
   extract_signal now ''BUY BTCUSD entry 50000 tp 51500 sl 49000'' =
     \<lparr> message = ''BUY BTCUSD entry 50000 tp 51500 sl 49000'',
       source = ''whatsapp'',
       pair = ''BTC'',
       action = ''BUY'',
       entry = ''50000'',
       tp = ''51500'',
       sl = ''49000'',
       priority = ''high'',
       timestamp = now \<rparr> \<and>
   pair (extract_signal now text) =
     (case find (\<lambda>p. sublist p (upper text)) TRADING_PAIRS of
        None \<Rightarrow> ''''
      | Some p \<Rightarrow> p) \<and>
   pair (extract_signal now ''sell usd, buy btc'') = ''BTC''"
proof -
  have "is_trading_signal ''BUY BTCUSD entry 50000 tp 51500 sl 49000''"
    by code_simp
  moreover have "extract_signal now ''BUY BTCUSD entry 50000 tp 51500 sl 49000'' =
     \<lparr> message = ''BUY BTCUSD entry 50000 tp 51500 sl 49000'',
       source = ''whatsapp'', pair = ''BTC'', action = ''BUY'', entry = ''50000'',
       tp = ''51500'', sl = ''49000'', priority = ''high'', timestamp = now \<rparr>"
    by code_simp
  moreover have "pair (extract_signal now text) =
     (case find (\<lambda>p. sublist p (upper text)) TRADING_PAIRS of
        None \<Rightarrow> ''''
      | Some p \<Rightarrow> p)"
    by (simp add: extract_signal_def Let_def first_pair_find)
  moreover have "pair (extract_signal now ''sell usd, buy btc'') = ''BTC''"
    by code_simp
  ultimately show ?thesis by blast
qed

subsection \<open>The extraction\<close>

lemma match_label_numeral: "match_label label s = Some g \<Longrightarrow> numeral_string g"
  by (auto simp: match_label_def Let_def split: if_splits dest: match_number_numeral)

lemma find_value_cases:
  "find_value up label = ''N/A'' \<or> numeral_string (find_value up label)"
proof (cases "re_search (match_label label) up")
  case None
  then show ?thesis by (simp add: find_value_def)
next
  case (Some g)
  from re_search_Some [OF this] obtain t where "match_label label t = Some g" by blast
  then have "numeral_string g" by (rule match_label_numeral)
  with Some show ?thesis by (simp add: find_value_def)
qed

lemma first_pair_cases:
  "first_pair up ps = [] \<or> (first_pair up ps \<in> set ps \<and> py_in (first_pair up ps) up)"
  by (induction ps) auto

text \<open>
  Claim C7. \<open>extract_signal\<close> is a total function of the text: no branch of the source
  raises, so the model has no error result, and for every text the pair is one of
  \<open>TRADING_PAIRS\<close> or empty, the action is BUY, SELL or empty, and each of entry,
  take-profit and stop-loss is a numeral or the text \<^verbatim>\<open>N/A\<close>.
\<close>

theorem extract_signal_total:
  "pair (extract_signal now text) \<in> set ('''' # TRADING_PAIRS) \<and>
   action (extract_signal now text) \<in> set ['''', ''BUY'', ''SELL''] \<and>
   (entry (extract_signal now text) = ''N/A'' \<or>
      numeral_string (entry (extract_signal now text))) \<and>
   (tp (extract_signal now text) = ''N/A'' \<or>
      numeral_string (tp (extract_signal now text))) \<and>
   (sl (extract_signal now text) = ''N/A'' \<or>
      numeral_string (sl (extract_signal now text)))"
proof -
  have "pair (extract_signal now text) = first_pair (upper text) TRADING_PAIRS"
    by (simp add: extract_signal_def Let_def)
  then have p: "pair (extract_signal now text) \<in> set ('''' # TRADING_PAIRS)"
    using first_pair_cases [of "upper text" TRADING_PAIRS] by auto
  have a: "action (extract_signal now text) \<in> set ['''', ''BUY'', ''SELL'']"
    by (simp add: extract_signal_def Let_def)
  have e: "entry (extract_signal now text) = find_value (upper text) ''ENTRY''"
    and t: "tp (extract_signal now text) = find_value (upper text) ''TP''"
    and s: "sl (extract_signal now text) = find_value (upper text) ''SL''"
    by (simp_all add: extract_signal_def Let_def)
  show ?thesis
    unfolding e t s using p a find_value_cases by blast
qed

subsection \<open>Traces\<close>

lemma map_filter_append: "List.map_filter f (xs @ ys) = List.map_filter f xs @ List.map_filter f ys"
  by (simp add: List.map_filter_def)

lemma writes_append: "writes (xs @ ys) = writes xs @ writes ys"
  by (simp add: writes_def map_filter_append)

lemma writes_logger: "writes (logger l m tr) = writes tr"
  by (simp add: writes_def logger_def map_filter_append)

lemma writes_save_users: "writes (trace (save_users b)) = writes (trace b) @ [users b]"
  by (simp add: writes_def save_users_def map_filter_append)

lemma users_save_users: "users (save_users b) = users b"
  by (simp add: save_users_def)

subsection \<open>Activation\<close>

lemma activate_loop_None: "activate_loop now uid us = None \<longleftrightarrow> uid \<notin> user_id ` set us"
  by (induction us) auto

lemma deactivate_loop_None: "deactivate_loop uid us = None \<longleftrightarrow> uid \<notin> user_id ` set us"
  by (induction us) auto

lemma activate_loop_find:
  assumes "activate_loop now uid us = Some us'"
  shows "\<exists>u. find_user uid us = Some u \<and>
             find_user uid us' =
               Some (u\<lparr>status := ''active'', expiry := ExpiryIso (now + timedelta_days 30)\<rparr>)"
  using assms
proof (induction us arbitrary: us')
  case Nil
  then show ?case by simp
next
  case (Cons a us)
  show ?case
  proof (cases "user_id a = uid")
    case True
    with Cons.prems show ?thesis by (auto simp: find_user_def)
  next
    case False
    with Cons.prems obtain vs where vs: "activate_loop now uid us = Some vs" and "us' = a # vs"
      by auto
    with Cons.IH [OF vs] False show ?thesis by (auto simp: find_user_def)
  qed
qed

subsection \<open>The sweep\<close>

lemma check_user_expired:
  "is_expired now u \<Longrightarrow>
   check_user now u tr ch =
     (u\<lparr>status := ''inactive''\<rparr>, logger INFO (SubscriptionExpired (user_id u) (name u)) tr, True)"
  by (auto simp: check_user_def is_expired_def split: expiry_field.splits)

lemma check_user_not_expired:
  "\<not> is_expired now u \<Longrightarrow> check_user now u tr ch = (u, tr, ch)"
  by (auto simp: check_user_def is_expired_def split: expiry_field.splits)

lemma check_loop_eq:
  "check_loop now us tr ch =
     (map (sweep_user now) us,
      tr @ map (\<lambda>u. Log INFO (SubscriptionExpired (user_id u) (name u)))
             (filter (is_expired now) us),
      ch \<or> (\<exists>u \<in> set us. is_expired now u))"
proof (induction us arbitrary: tr ch)
  case Nil
  show ?case by simp
next
  case (Cons u us)
  show ?case
  proof (cases "is_expired now u")
    case True
    then show ?thesis
      by (simp add: check_user_expired sweep_user_def Cons.IH logger_def)
  next
    case False
    then show ?thesis
      by (simp add: check_user_not_expired sweep_user_def Cons.IH)
  qed
qed

lemma writes_logs: "writes (tr @ map (\<lambda>u. Log l (m u)) us) = writes tr"
  by (induction us) (simp_all add: writes_def map_filter_append)

lemma sweep_user_clean: "\<not> is_expired now (sweep_user now u)"
  by (simp add: sweep_user_def is_expired_def)

lemma check_subscriptions_clean:
  assumes "\<forall>u \<in> set (users b). \<not> is_expired now u"
  shows "check_subscriptions now b = b"
proof -
  from assms have "filter (is_expired now) (users b) = []"
    and "map (sweep_user now) (users b) = users b"
    by (simp_all add: sweep_user_def map_idI)
  with assms show ?thesis
    by (simp add: check_subscriptions_def check_loop_eq)
qed

lemma check_subscriptions_users:
  "users (check_subscriptions now b) = map (sweep_user now) (users b)"
  by (simp add: check_subscriptions_def check_loop_eq users_save_users Let_def)

lemma check_subscriptions_writes:
  "writes (trace (check_subscriptions now b)) =
     (if \<exists>u \<in> set (users b). is_expired now u
      then writes (trace b) @ [map (sweep_user now) (users b)]
      else writes (trace b))"
  by (simp add: check_subscriptions_def check_loop_eq writes_save_users writes_logs Let_def)

text \<open>
  Claim C4. A sweep run again at once after a sweep changes nothing: the state after
  the second run, its users and its trace, is the state after the first, so no user is
  changed, nothing is logged and nothing is written. More generally a sweep that finds no
  expired user returns the state it was given.
\<close>

theorem check_subscriptions_idempotent:
  "check_subscriptions now (check_subscriptions now b) = check_subscriptions now b \<and>
   ((\<forall>u \<in> set (users b). \<not> is_expired now u) \<longrightarrow> check_subscriptions now b = b)"
proof -
  have "\<forall>u \<in> set (users (check_subscriptions now b)). \<not> is_expired now u"
    by (simp add: check_subscriptions_users sweep_user_clean)
  then have "check_subscriptions now (check_subscriptions now b) = check_subscriptions now b"
    by (rule check_subscriptions_clean)
  then show ?thesis by (simp add: check_subscriptions_clean)
qed

theorem check_subscriptions_idempotent_witness:
  "\<not> (\<exists>u \<in> set (users \<lparr>users = [subscriber ''TR1'' ''08012345678'' ''inactive'' (ExpiryIso 5),
                               subscriber ''TR2'' ''08087654321'' ''active'' (ExpiryIso 20)],
                      trace = []\<rparr>). is_expired 10 u) \<and>
   check_subscriptions 10
     \<lparr>users = [subscriber ''TR1'' ''08012345678'' ''inactive'' (ExpiryIso 5),
               subscriber ''TR2'' ''08087654321'' ''active'' (ExpiryIso 20)],
      trace = []\<rparr> =
     \<lparr>users = [subscriber ''TR1'' ''08012345678'' ''inactive'' (ExpiryIso 5),
               subscriber ''TR2'' ''08087654321'' ''active'' (ExpiryIso 20)],
      trace = []\<rparr>"
proof -
  let ?b = "\<lparr>users = [subscriber ''TR1'' ''08012345678'' ''inactive'' (ExpiryIso 5),
                      subscriber ''TR2'' ''08087654321'' ''active'' (ExpiryIso 20)],
             trace = []\<rparr>"
  have h: "\<forall>u \<in> set (users ?b). \<not> is_expired 10 u"
    by (simp add: is_expired_def subscriber_def)
  with check_subscriptions_idempotent [of 10 ?b] have "check_subscriptions 10 ?b = ?b"
    by blast
  with h show ?thesis by blast
qed

lemma find_user_map:
  assumes "\<And>u. user_id (f u) = user_id u"
  shows "find_user uid (map f us) = map_option f (find_user uid us)"
  by (induction us) (simp_all add: find_user_def assms)

lemma find_user_set: "find_user uid us = Some u \<Longrightarrow> u \<in> set us"
  by (auto simp: find_user_def find_Some_iff)

lemma activation_then_sweep:
  assumes "uid \<in> user_id ` set (users b)" and "T + timedelta_days 30 < now"
  shows "\<exists>b1 u.
           activate_user T uid b = (True, b1) \<and>
           find_user uid (users b1) = Some u \<and>
           status u = ''active'' \<and>
           expiry u = ExpiryIso (T + timedelta_days 30) \<and>
           find_user uid (users (check_subscriptions now b1)) = Some (u\<lparr>status := ''inactive''\<rparr>) \<and>
           writes (trace (check_subscriptions now b1)) =
             writes (trace b1) @ [users (check_subscriptions now b1)]"
proof -
  from assms(1) obtain us where us: "activate_loop T uid (users b) = Some us"
    using activate_loop_None [of T uid "users b"] by auto
  define b1 where "b1 = snd (activate_user T uid b)"
  from us have act: "activate_user T uid b = (True, b1)"
    by (simp add: b1_def activate_user_def Let_def)
  from us have ub1: "users b1 = us"
    by (simp add: b1_def activate_user_def Let_def users_save_users)
  from activate_loop_find [OF us] obtain u0 where
    f: "find_user uid us =
          Some (u0\<lparr>status := ''active'', expiry := ExpiryIso (T + timedelta_days 30)\<rparr>)"
    by blast
  define u where "u = u0\<lparr>status := ''active'', expiry := ExpiryIso (T + timedelta_days 30)\<rparr>"
  have st: "status u = ''active''" and ex: "expiry u = ExpiryIso (T + timedelta_days 30)"
    by (simp_all add: u_def)
  from st ex assms(2) have expd: "is_expired now u" by (simp add: is_expired_def)
  from f have fu: "find_user uid (users b1) = Some u" by (simp add: ub1 u_def)
  have "find_user uid (users (check_subscriptions now b1)) = Some (sweep_user now u)"
    by (simp add: check_subscriptions_users find_user_map sweep_user_def fu)
  with expd have fs: "find_user uid (users (check_subscriptions now b1)) = Some (u\<lparr>status := ''inactive''\<rparr>)"
    by (simp add: sweep_user_def)
  from fu have "u \<in> set (users b1)" by (rule find_user_set)
  with expd have "\<exists>v \<in> set (users b1). is_expired now v" by blast
  then have w: "writes (trace (check_subscriptions now b1)) =
      writes (trace b1) @ [users (check_subscriptions now b1)]"
    by (simp add: check_subscriptions_writes check_subscriptions_users)
  from act fu st ex fs w show ?thesis by blast
qed

text \<open>
  Claim C5. Activating an existing user at time \<open>T\<close> succeeds and leaves that user active
  with the expiry \<open>T\<close> plus thirty days. A sweep of the resulting state at any time after
  that expiry leaves the user inactive and writes the collection exactly once.
\<close>

theorem activate_then_expire:
  assumes "uid \<in> user_id ` set (users b)" and "T + timedelta_days 30 < now"
  shows "fst (activate_user T uid b) \<and>
         map_option status (find_user uid (users (snd (activate_user T uid b)))) =
           Some ''active'' \<and>
         map_option expiry (find_user uid (users (snd (activate_user T uid b)))) =
           Some (ExpiryIso (T + timedelta_days 30)) \<and>
         map_option status
           (find_user uid (users (check_subscriptions now (snd (activate_user T uid b))))) =
           Some ''inactive'' \<and>
         writes (trace (check_subscriptions now (snd (activate_user T uid b)))) =
           writes (trace (snd (activate_user T uid b))) @
             [users (check_subscriptions now (snd (activate_user T uid b)))]"
proof -
  from activation_then_sweep [OF assms] obtain b1 u where
    "activate_user T uid b = (True, b1)"
    "find_user uid (users b1) = Some u"
    "status u = ''active''"
    "expiry u = ExpiryIso (T + timedelta_days 30)"
    "find_user uid (users (check_subscriptions now b1)) = Some (u\<lparr>status := ''inactive''\<rparr>)"
    "writes (trace (check_subscriptions now b1)) =
       writes (trace b1) @ [users (check_subscriptions now b1)]"
    by blast
  then show ?thesis by simp
qed

theorem activate_then_expire_witness:
  "''TR1'' \<in> user_id ` set (users \<lparr>users = [subscriber ''TR1'' ''08012345678'' ''pending'' ExpiryNone],
                                   trace = []\<rparr>) \<and>
   0 + timedelta_days 30 < timedelta_days 31 \<and>
   map_option status
     (find_user ''TR1''
        (users (check_subscriptions (timedelta_days 31)
           (snd (activate_user 0 ''TR1''
              \<lparr>users = [subscriber ''TR1'' ''08012345678'' ''pending'' ExpiryNone],
                trace = []\<rparr>))))) = Some ''inactive''"
proof -
  let ?b = "\<lparr>users = [subscriber ''TR1'' ''08012345678'' ''pending'' ExpiryNone], trace = []\<rparr>"
  have h1: "''TR1'' \<in> user_id ` set (users ?b)"
    by (simp add: subscriber_def)
  have h2: "0 + timedelta_days 30 < timedelta_days 31"
    by (simp add: timedelta_days_def)
  from activate_then_expire [OF h1 h2] h1 h2 show ?thesis by blast
qed

text \<open>
  Claim C10. When no user of the collection has the id, \<open>activate_user\<close> and
  \<open>deactivate_user\<close> return false, the collection is the one given and nothing is
  written; \<open>deactivate_user\<close> leaves the whole state as it was, \<open>activate_user\<close> only
  adds its warning to the log.
\<close>

theorem unknown_user_unchanged:
  assumes "uid \<notin> user_id ` set (users b)"
  shows "fst (activate_user now uid b) = False \<and>
         users (snd (activate_user now uid b)) = users b \<and>
         writes (trace (snd (activate_user now uid b))) = writes (trace b) \<and>
         trace (snd (activate_user now uid b)) = trace b @ [Log WARNING (UserNotFound uid)] \<and>
         deactivate_user uid b = (False, b)"
proof -
  from assms have a: "activate_loop now uid (users b) = None"
    and d: "deactivate_loop uid (users b) = None"
    by (simp_all add: activate_loop_None deactivate_loop_None)
  show ?thesis
    by (simp add: activate_user_def deactivate_user_def a d writes_logger) (simp add: logger_def)
qed

theorem unknown_user_unchanged_witness:
  "''TR9'' \<notin> user_id ` set (users \<lparr>users = [subscriber ''TR1'' ''08012345678'' ''pending'' ExpiryNone],
                                     trace = []\<rparr>) \<and>
   fst (activate_user 0 ''TR9''
          \<lparr>users = [subscriber ''TR1'' ''08012345678'' ''pending'' ExpiryNone], trace = []\<rparr>) = False \<and>
   deactivate_user ''TR9''
     \<lparr>users = [subscriber ''TR1'' ''08012345678'' ''pending'' ExpiryNone], trace = []\<rparr> =
     (False, \<lparr>users = [subscriber ''TR1'' ''08012345678'' ''pending'' ExpiryNone], trace = []\<rparr>)"
proof -
  let ?b = "\<lparr>users = [subscriber ''TR1'' ''08012345678'' ''pending'' ExpiryNone], trace = []\<rparr>"
  have h: "''TR9'' \<notin> user_id ` set (users ?b)"
    by (simp add: subscriber_def)
  from unknown_user_unchanged [OF h, of 0] h show ?thesis by blast
qed

subsection \<open>Phone normalisation\<close>

lemma replace_char_empty: "replace_char c [] s = filter (\<lambda>x. x \<noteq> c) s"
  by (induction s) (simp_all add: replace_char_def)

lemma normalise_phone_no_space: "CHR '' '' \<notin> set (normalise_phone p)"
  by (auto simp: normalise_phone_def Let_def replace_char_empty startswith_def
      dest: in_set_dropD)

lemma normalise_phone_no_hyphen: "CHR ''-'' \<notin> set (normalise_phone p)"
  by (auto simp: normalise_phone_def Let_def replace_char_empty startswith_def
      dest: in_set_dropD)

lemma normalise_phone_no_zero: "\<not> startswith (normalise_phone p) ''0''"
  by (simp add: normalise_phone_def Let_def startswith_def)

lemma digits_filter:
  assumes "list_all (\<lambda>c. is_digit c \<or> c = CHR '' '' \<or> c = CHR ''-'') q"
  shows "list_all is_digit (filter (\<lambda>x. x \<noteq> CHR ''-'') (filter (\<lambda>x. x \<noteq> CHR '' '') q))"
  using assms by (induction q) auto

lemma digits_local:
  assumes "list_all is_digit q"
  shows "list_all is_digit (if startswith q ''0'' then ''234'' @ drop 1 q else q)"
proof -
  have "list_all is_digit ''234''" by (simp add: is_digit_def)
  moreover from assms have "list_all is_digit (drop 1 q)"
    by (auto simp: list_all_iff dest: in_set_dropD)
  ultimately show ?thesis using assms by simp
qed

lemma not_digit_plus: "\<not> is_digit CHR ''+''"
  by (simp add: is_digit_def)

lemma normalise_phone_digits:
  assumes "phone_format (strip p)"
  shows "list_all is_digit (normalise_phone p)"
proof -
  let ?q = "strip p"
  let ?f = "\<lambda>s. filter (\<lambda>x. x \<noteq> CHR ''-'') (filter (\<lambda>x. x \<noteq> CHR '' '') s)"
  show ?thesis
  proof (cases "startswith ?q ''+''")
    case True
    then obtain r where q: "?q = CHR ''+'' # r"
      by (cases ?q) (auto simp: startswith_def)
    with assms have "list_all (\<lambda>c. is_digit c \<or> c = CHR '' '' \<or> c = CHR ''-'') r"
      by (simp add: phone_format_def startswith_def)
    then have d: "list_all is_digit (?f r)" by (rule digits_filter)
    have "normalise_phone p = (if startswith (?f r) ''0'' then ''234'' @ drop 1 (?f r) else ?f r)"
      by (simp add: normalise_phone_def Let_def replace_char_empty q startswith_def)
    with digits_local [OF d] show ?thesis by simp
  next
    case False
    with assms have "list_all (\<lambda>c. is_digit c \<or> c = CHR '' '' \<or> c = CHR ''-'') ?q"
      by (simp add: phone_format_def)
    then have d: "list_all is_digit (?f ?q)" by (rule digits_filter)
    then have "\<not> startswith (?f ?q) ''+''"
      by (cases "?f ?q") (auto simp: startswith_def not_digit_plus)
    then have "normalise_phone p =
        (if startswith (?f ?q) ''0'' then ''234'' @ drop 1 (?f ?q) else ?f ?q)"
      by (simp add: normalise_phone_def Let_def replace_char_empty)
    with digits_local [OF d] show ?thesis by simp
  qed
qed

lemma strip_padded:
  assumes "list_all is_space ws1" and "list_all is_space ws2" and "trimmed q"
  shows "strip (ws1 @ q @ ws2) = q"
proof (cases "q = []")
  case True
  from assms(1,2) have "\<forall>x \<in> set (ws1 @ ws2). is_space x"
    by (auto simp: list_all_iff)
  then have e: "dropWhile is_space (ws1 @ ws2) = []"
    by (simp only: dropWhile_eq_Nil_conv)
  show ?thesis unfolding True strip_def append_Nil e by simp
next
  case False
  with assms(3) have h: "\<not> is_space (hd q)" and l: "\<not> is_space (last q)"
    by (simp_all add: trimmed_def)
  from assms(1) have "dropWhile is_space (ws1 @ q @ ws2) = dropWhile is_space (q @ ws2)"
    by (simp add: list_all_iff dropWhile_append2)
  also from False h have "\<dots> = q @ ws2"
    by (cases q) simp_all
  finally have d: "dropWhile is_space (ws1 @ q @ ws2) = q @ ws2" .
  from assms(2) have "dropWhile is_space (rev ws2 @ rev q) = dropWhile is_space (rev q)"
    by (intro dropWhile_append2) (simp add: list_all_iff)
  also from False l have "\<dots> = rev q"
    by (cases "rev q") (simp_all add: last_rev [symmetric] del: last_rev)
  finally have "dropWhile is_space (rev (q @ ws2)) = rev q" by simp
  with d show ?thesis by (simp add: strip_def)
qed

lemma normalise_phone_unspaced:
  "normalise_phone p =
     (let c = unspaced (strip p);
          d = (if startswith c ''+'' then drop 1 c else c)
      in if startswith d ''0'' then ''234'' @ drop 1 d else d)"
proof -
  have "replace_char CHR ''-'' [] (replace_char CHR '' '' [] s) = unspaced s" for s
    by (simp add: replace_char_empty unspaced_def conj_commute)
  then show ?thesis by (simp add: normalise_phone_def Let_def)
qed

lemma normalise_phone_plus_zero:
  "unspaced (strip p) = CHR ''+'' # CHR ''0'' # r \<Longrightarrow> normalise_phone p = ''234'' @ r"
  by (simp add: normalise_phone_unspaced startswith_def)

lemma normalise_phone_plus:
  "unspaced (strip p) = CHR ''+'' # r \<Longrightarrow> \<not> startswith r ''0'' \<Longrightarrow> normalise_phone p = r"
  by (simp add: normalise_phone_unspaced startswith_def)

lemma normalise_phone_zero:
  "unspaced (strip p) = CHR ''0'' # r \<Longrightarrow> normalise_phone p = ''234'' @ r"
  by (simp add: normalise_phone_unspaced startswith_def)

lemma normalise_phone_other:
  "\<not> startswith (unspaced (strip p)) ''+'' \<Longrightarrow> \<not> startswith (unspaced (strip p)) ''0'' \<Longrightarrow>
   normalise_phone p = unspaced (strip p)"
  by (simp add: normalise_phone_unspaced)

text \<open>
  Claim C9, as the code has it. \<open>strip\<close> removes the whitespace around the address and
  nothing else. From the stripped address every space and every hyphen is removed and
  every other character is kept, in order; of what is left one leading \<open>+\<close> is dropped,
  and then a leading \<open>0\<close> is replaced by \<open>234\<close>; nothing else is changed, so brackets,
  letters, a TAB inside the address or a second \<open>+\<close> stay. Hence the result has no space
  and no hyphen and does not begin with \<open>0\<close>; when the stripped address is an optional
  \<open>+\<close> followed by digits, spaces and hyphens only, the result consists of digits only;
  and the three formats of the docstring all give \<open>2348012345678\<close>.
\<close>

theorem normalise_phone_canonical:
  "(list_all is_space ws1 \<and> list_all is_space ws2 \<and> trimmed q \<longrightarrow>
      strip (ws1 @ q @ ws2) = q) \<and>
   (unspaced (strip p) = CHR ''+'' # CHR ''0'' # r \<longrightarrow> normalise_phone p = ''234'' @ r) \<and>
   (unspaced (strip p) = CHR ''+'' # r \<and> \<not> startswith r ''0'' \<longrightarrow> normalise_phone p = r) \<and>
   (unspaced (strip p) = CHR ''0'' # r \<longrightarrow> normalise_phone p = ''234'' @ r) \<and>
   (\<not> startswith (unspaced (strip p)) ''+'' \<and> \<not> startswith (unspaced (strip p)) ''0'' \<longrightarrow>
      normalise_phone p = unspaced (strip p)) \<and>
   CHR '' '' \<notin> set (normalise_phone p) \<and>
   CHR ''-'' \<notin> set (normalise_phone p) \<and>
   \<not> startswith (normalise_phone p) ''0'' \<and>
   (phone_format (strip p) \<longrightarrow> list_all is_digit (normalise_phone p)) \<and>
   normalise_phone ''08012345678'' = ''2348012345678'' \<and>
   normalise_phone ''2348012345678'' = ''2348012345678'' \<and>
   normalise_phone ''+2348012345678'' = ''2348012345678''"
proof -
  have "normalise_phone ''08012345678'' = ''2348012345678''"
    and "normalise_phone ''2348012345678'' = ''2348012345678''"
    and "normalise_phone ''+2348012345678'' = ''2348012345678''"
    by code_simp+
  then show ?thesis
    using normalise_phone_no_space [of p] normalise_phone_no_hyphen [of p]
      normalise_phone_no_zero [of p] normalise_phone_digits [of p]
      strip_padded [of ws1 ws2 q] normalise_phone_plus_zero [of p r]
      normalise_phone_plus [of p r] normalise_phone_zero [of p r] normalise_phone_other [of p]
    by blast
qed

theorem normalise_phone_canonical_witness:
  "list_all is_space [CHR '' '', CHR 0x09] \<and> list_all is_space [CHR 0x0A] \<and>
   trimmed ''+0801-234 5678'' \<and>
   strip ([CHR '' '', CHR 0x09] @ ''+0801-234 5678'' @ [CHR 0x0A]) = ''+0801-234 5678'' \<and>
   unspaced (strip '' +0801-234 5678 '') = CHR ''+'' # CHR ''0'' # ''8012345678'' \<and>
   normalise_phone '' +0801-234 5678 '' = ''234'' @ ''8012345678'' \<and>
   unspaced (strip ''++234 801'') = CHR ''+'' # ''+234801'' \<and>
   \<not> startswith ''+234801'' ''0'' \<and>
   normalise_phone ''++234 801'' = ''+234801'' \<and>
   unspaced (strip ''0801-234 5678'') = CHR ''0'' # ''8012345678'' \<and>
   normalise_phone ''0801-234 5678'' = ''234'' @ ''8012345678'' \<and>
   \<not> startswith (unspaced (strip ''(080) 1234-5678'')) ''+'' \<and>
   \<not> startswith (unspaced (strip ''(080) 1234-5678'')) ''0'' \<and>
   normalise_phone ''(080) 1234-5678'' = unspaced (strip ''(080) 1234-5678'') \<and>
   phone_format (strip '' +234 801-234 5678 '') \<and>
   list_all is_digit (normalise_phone '' +234 801-234 5678 '')"
proof -
  have a: "list_all is_space [CHR '' '', CHR 0x09]" "list_all is_space [CHR 0x0A]"
    "trimmed ''+0801-234 5678''"
    by code_simp+
  have b: "unspaced (strip '' +0801-234 5678 '') = CHR ''+'' # CHR ''0'' # ''8012345678''"
    by code_simp
  have c: "unspaced (strip ''++234 801'') = CHR ''+'' # ''+234801''"
    "\<not> startswith ''+234801'' ''0''"
    by code_simp+
  have d: "unspaced (strip ''0801-234 5678'') = CHR ''0'' # ''8012345678''"
    by code_simp
  have e: "\<not> startswith (unspaced (strip ''(080) 1234-5678'')) ''+''"
    "\<not> startswith (unspaced (strip ''(080) 1234-5678'')) ''0''"
    by code_simp+
  have f: "phone_format (strip '' +234 801-234 5678 '')"
    by code_simp
  from a normalise_phone_canonical [of "[CHR '' '', CHR 0x09]" "[CHR 0x0A]" "''+0801-234 5678''"]
  have a': "strip ([CHR '' '', CHR 0x09] @ ''+0801-234 5678'' @ [CHR 0x0A]) = ''+0801-234 5678''"
    by blast
  from b normalise_phone_canonical [of _ _ _ "'' +0801-234 5678 ''" "''8012345678''"]
  have b': "normalise_phone '' +0801-234 5678 '' = ''234'' @ ''8012345678''"
    by blast
  from c normalise_phone_canonical [of _ _ _ "''++234 801''" "''+234801''"]
  have c': "normalise_phone ''++234 801'' = ''+234801''"
    by blast
  from d normalise_phone_canonical [of _ _ _ "''0801-234 5678''" "''8012345678''"]
  have d': "normalise_phone ''0801-234 5678'' = ''234'' @ ''8012345678''"
    by blast
  from e normalise_phone_canonical [of _ _ _ "''(080) 1234-5678''"]
  have e': "normalise_phone ''(080) 1234-5678'' = unspaced (strip ''(080) 1234-5678'')"
    by blast
  from f normalise_phone_canonical [of _ _ _ "'' +234 801-234 5678 ''"]
  have f': "list_all is_digit (normalise_phone '' +234 801-234 5678 '')"
    by blast
  from a a' b b' c c' d d' e e' f f' show ?thesis by (intro conjI)
qed

text \<open>
  The claim as it is written fails: an address with brackets is not reduced to digits,
  and a TAB inside an address is whitespace that stays.
\<close>

theorem normalise_phone_not_digit_only:
  "\<not> list_all is_digit (normalise_phone ''(080) 1234-5678'') \<and>
   normalise_phone ''(080) 1234-5678'' = ''(080)12345678'' \<and>
   list_ex is_space (normalise_phone (''0801'' @ [CHR 0x09] @ ''2345678''))"
  by code_simp

subsection \<open>The channels and the fan-out\<close>

lemmas channel_defs =
  alert_user_def send_whatsapp_alert_def send_alert_def send_message_def
  trigger_phone_alarm_def send_push_notification_def logger_def Let_def
  map_filter_append

lemma attempted_alert_user:
  "attempted (snd (alert_user ev sig u tr)) =
     attempted tr @ (if phone u \<noteq> '''' then [name u] else [])"
  by (simp add: channel_defs attempted_def
      split: create_result.splits post_result.splits option.splits)

lemma transport_alert_user:
  assumes "WhatsAppService_init ev = None"
  shows "transport_calls (snd (alert_user ev sig u tr)) =
           transport_calls tr @ (if phone u \<noteq> '''' then [destination u] else [])"
  using assms
  by (simp add: channel_defs transport_calls_def destination_def
      split: create_result.splits post_result.splits option.splits)

lemma failures_alert_user:
  assumes "WhatsAppService_init ev = None" and "always_raises ev"
  shows "failures_logged (snd (alert_user ev sig u tr)) =
           failures_logged tr @ (if phone u \<noteq> '''' then [name u] else [])"
proof -
  from assms(2) have "\<And>tr d s sid. messages_create ev tr d s \<noteq> Created sid"
    by (metis always_raises_def create_result.distinct(1))
  with assms(1) show ?thesis
    by (simp add: channel_defs failures_logged_def
        split: create_result.splits post_result.splits option.splits)
qed

lemma writes_alert_user: "writes (snd (alert_user ev sig u tr)) = writes tr"
  by (simp add: channel_defs writes_def
      split: create_result.splits post_result.splits option.splits)

lemma push_alert_user:
  assumes "push_token u = '''' \<or> ONESIGNAL_APP_ID ev = '''' \<or> ONESIGNAL_API_KEY ev = ''''"
  shows "push_calls (snd (alert_user ev sig u tr)) = push_calls tr"
  using assms
  by (auto simp: channel_defs push_calls_def
      split: create_result.splits post_result.splits option.splits)

lemma fst_alert_user: "fst (alert_user ev sig u tr) = bump u"
  by (simp add: alert_user_def Let_def bump_def alerts_count_def)

lemma send_whatsapp_alert_fails:
  assumes "always_raises ev"
  shows "fst (send_whatsapp_alert ev u sig tr) = False"
proof -
  from assms have "\<And>tr d s sid. messages_create ev tr d s \<noteq> Created sid"
    by (metis always_raises_def create_result.distinct(1))
  then show ?thesis
    by (simp add: send_whatsapp_alert_def send_alert_def send_message_def Let_def
        split: create_result.splits option.splits)
qed

lemma alert_loop_users:
  "fst (alert_loop ev sig us tr) =
     map (\<lambda>u. if status u = ''active'' then bump u else u) us"
proof (induction us arbitrary: tr)
  case Nil
  show ?case by simp
next
  case (Cons u us)
  obtain u' tr1 where au: "alert_user ev sig u tr = (u', tr1)" by (metis surj_pair)
  with fst_alert_user [of ev sig u tr] have u': "u' = bump u" by simp
  obtain us1 tr2 where l1: "alert_loop ev sig us tr1 = (us1, tr2)" by (metis surj_pair)
  obtain us0 tr0 where l0: "alert_loop ev sig us tr = (us0, tr0)" by (metis surj_pair)
  from Cons.IH [of tr1] l1 have "us1 = map (\<lambda>u. if status u = ''active'' then bump u else u) us"
    by simp
  moreover from Cons.IH [of tr] l0 have "us0 = map (\<lambda>u. if status u = ''active'' then bump u else u) us"
    by simp
  ultimately show ?case by (simp add: au l1 l0 u')
qed

lemma alert_loop_proj:
  assumes "\<And>u tr. P (snd (alert_user ev sig u tr)) = P tr @ g u"
  shows "P (snd (alert_loop ev sig us tr)) =
           P tr @ concat (map g (filter (\<lambda>u. status u = ''active'') us))"
proof (induction us arbitrary: tr)
  case Nil
  show ?case by simp
next
  case (Cons u us)
  obtain u' tr1 where au: "alert_user ev sig u tr = (u', tr1)" by (metis surj_pair)
  with assms [of u tr] have p1: "P tr1 = P tr @ g u" by simp
  obtain us1 tr2 where l1: "alert_loop ev sig us tr1 = (us1, tr2)" by (metis surj_pair)
  obtain us0 tr0 where l0: "alert_loop ev sig us tr = (us0, tr0)" by (metis surj_pair)
  from Cons.IH [of tr1] l1
  have "P tr2 = P tr1 @ concat (map g (filter (\<lambda>u. status u = ''active'') us))" by simp
  moreover from Cons.IH [of tr] l0
  have "P tr0 = P tr @ concat (map g (filter (\<lambda>u. status u = ''active'') us))" by simp
  ultimately show ?case by (simp add: au l1 l0 p1)
qed

lemma concat_eligible:
  "concat (map (\<lambda>u. if phone u \<noteq> '''' then [f u] else [])
             (filter (\<lambda>u. status u = ''active'') us)) =
   map f (filter eligible us)"
  by (induction us) (simp_all add: eligible_def)

lemma users_trigger_alerts:
  "users (trigger_alerts ev sig b) =
     map (\<lambda>u. if status u = ''active'' then bump u else u) (users b)"
proof -
  obtain us tr where l: "alert_loop ev sig (users b)
      (logger INFO (SendingAlerts (length (get_active_users b))) (trace b)) = (us, tr)"
    by (metis surj_pair)
  with alert_loop_users [of ev sig "users b"
      "logger INFO (SendingAlerts (length (get_active_users b))) (trace b)"]
  show ?thesis by (simp add: trigger_alerts_def Let_def save_users_def)
qed

lemma trace_trigger_alerts:
  "trace (trigger_alerts ev sig b) =
     snd (alert_loop ev sig (users b)
            (logger INFO (SendingAlerts (length (get_active_users b))) (trace b)))
     @ [SaveUsers (users (trigger_alerts ev sig b))]"
  by (simp add: trigger_alerts_def Let_def save_users_def split: prod.splits)

lemma attempted_trigger_alerts:
  "attempted (trace (trigger_alerts ev sig b)) =
     attempted (trace b) @ map name (filter eligible (users b))"
proof -
  have "attempted (snd (alert_loop ev sig (users b)
            (logger INFO (SendingAlerts (length (get_active_users b))) (trace b)))) =
        attempted (logger INFO (SendingAlerts (length (get_active_users b))) (trace b)) @
          concat (map (\<lambda>u. if phone u \<noteq> '''' then [name u] else [])
                    (filter (\<lambda>u. status u = ''active'') (users b)))"
    by (rule alert_loop_proj) (rule attempted_alert_user)
  then show ?thesis
    by (simp add: trace_trigger_alerts concat_eligible attempted_def logger_def
        map_filter_append)
qed

lemma writes_trigger_alerts:
  "writes (trace (trigger_alerts ev sig b)) =
     writes (trace b) @ [users (trigger_alerts ev sig b)]"
proof -
  have "writes (snd (alert_loop ev sig (users b)
            (logger INFO (SendingAlerts (length (get_active_users b))) (trace b)))) =
        writes (logger INFO (SendingAlerts (length (get_active_users b))) (trace b)) @
          concat (map (\<lambda>u. []) (filter (\<lambda>u. status u = ''active'') (users b)))"
    by (rule alert_loop_proj) (simp add: writes_alert_user)
  then show ?thesis
    by (simp add: trace_trigger_alerts writes_def logger_def
        map_filter_append)
qed

lemma transport_trigger_alerts:
  assumes "WhatsAppService_init ev = None"
  shows "transport_calls (trace (trigger_alerts ev sig b)) =
           transport_calls (trace b) @ map destination (filter eligible (users b))"
proof -
  have "transport_calls (snd (alert_loop ev sig (users b)
            (logger INFO (SendingAlerts (length (get_active_users b))) (trace b)))) =
        transport_calls (logger INFO (SendingAlerts (length (get_active_users b))) (trace b)) @
          concat (map (\<lambda>u. if phone u \<noteq> '''' then [destination u] else [])
                    (filter (\<lambda>u. status u = ''active'') (users b)))"
    by (rule alert_loop_proj) (rule transport_alert_user [OF assms])
  then show ?thesis
    by (simp add: trace_trigger_alerts concat_eligible transport_calls_def logger_def
        map_filter_append)
qed

lemma failures_trigger_alerts:
  assumes "WhatsAppService_init ev = None" and "always_raises ev"
  shows "failures_logged (trace (trigger_alerts ev sig b)) =
           failures_logged (trace b) @ map name (filter eligible (users b))"
proof -
  have "failures_logged (snd (alert_loop ev sig (users b)
            (logger INFO (SendingAlerts (length (get_active_users b))) (trace b)))) =
        failures_logged (logger INFO (SendingAlerts (length (get_active_users b))) (trace b)) @
          concat (map (\<lambda>u. if phone u \<noteq> '''' then [name u] else [])
                    (filter (\<lambda>u. status u = ''active'') (users b)))"
    by (rule alert_loop_proj) (rule failures_alert_user [OF assms])
  then show ?thesis
    by (simp add: trace_trigger_alerts concat_eligible failures_logged_def logger_def
        map_filter_append)
qed

text \<open>
  What the fan-out does to the counters: every active user is counted once more, with or
  without a contact address, and the other users are left as they are.
\<close>

lemma trigger_alerts_counts_every_active_user:
  "map alerts_count (users (trigger_alerts ev sig b)) =
     map (\<lambda>u. if status u = ''active'' then alerts_count u + 1 else alerts_count u) (users b)"
  by (simp add: users_trigger_alerts bump_def alerts_count_def cong: map_cong)

text \<open>
  Claim C1 at a collection of two active users, the second without a contact address.
  The text-message provider is called once, for the first user, and yet both counters go
  from 0 to 1: the increment of \<^verbatim>\<open>alerts_received\<close> and the log line
  \<^verbatim>\<open>Alert sent to\<close> stand after the test of the phone, not under it.
\<close>

theorem trigger_alerts_counts_user_without_phone:
  "map alerts_received
     (users (trigger_alerts (provider_env (Created ''SM1'') '''') example_signal
        \<lparr>users = [subscriber ''TR1'' ''08012345678'' ''active'' ExpiryNone,
                  subscriber ''TR2'' '''' ''active'' ExpiryNone],
         trace = []\<rparr>)) = [Some 1, Some 1] \<and>
   attempted
     (trace (trigger_alerts (provider_env (Created ''SM1'') '''') example_signal
        \<lparr>users = [subscriber ''TR1'' ''08012345678'' ''active'' ExpiryNone,
                  subscriber ''TR2'' '''' ''active'' ExpiryNone],
         trace = []\<rparr>)) = [''Trader''] \<and>
   transport_calls
     (trace (trigger_alerts (provider_env (Created ''SM1'') '''') example_signal
        \<lparr>users = [subscriber ''TR1'' ''08012345678'' ''active'' ExpiryNone,
                  subscriber ''TR2'' '''' ''active'' ExpiryNone],
         trace = []\<rparr>)) = [''whatsapp:+2348012345678'']"
  by code_simp

text \<open>
  Claim C6. In every dispatch pass, whatever the providers answer, the text-message
  channel is tried for each active user with a contact address, in the order of the
  collection, and the pass ends with its one write of the collection. When the Twilio
  client is configured and every call of it raises, \<open>send_whatsapp_alert\<close> returns false
  instead of raising, the client is still called once for each of these users, and one
  failure is logged for each of them.
\<close>

theorem dispatch_failure_isolation:
  "attempted (trace (trigger_alerts ev sig b)) =
     attempted (trace b) @ map name (filter eligible (users b)) \<and>
   writes (trace (trigger_alerts ev sig b)) =
     writes (trace b) @ [users (trigger_alerts ev sig b)] \<and>
   (WhatsAppService_init ev = None \<and> always_raises ev \<longrightarrow>
      fst (send_whatsapp_alert ev u sig tr) = False \<and>
      transport_calls (trace (trigger_alerts ev sig b)) =
        transport_calls (trace b) @ map destination (filter eligible (users b)) \<and>
      failures_logged (trace (trigger_alerts ev sig b)) =
        failures_logged (trace b) @ map name (filter eligible (users b)))"
  using attempted_trigger_alerts writes_trigger_alerts send_whatsapp_alert_fails
    transport_trigger_alerts failures_trigger_alerts
  by blast

theorem dispatch_failure_isolation_witness:
  "WhatsAppService_init (provider_env (CreateRaises ''timed out'') '''') = None \<and>
   always_raises (provider_env (CreateRaises ''timed out'') '''') \<and>
   transport_calls
     (trace (trigger_alerts (provider_env (CreateRaises ''timed out'') '''') example_signal
        \<lparr>users = [subscriber ''TR1'' ''08012345678'' ''active'' ExpiryNone,
                  subscriber ''TR2'' ''+2348087654321'' ''active'' ExpiryNone],
         trace = []\<rparr>)) = [''whatsapp:+2348012345678'', ''whatsapp:+2348087654321''] \<and>
   failures_logged
     (trace (trigger_alerts (provider_env (CreateRaises ''timed out'') '''') example_signal
        \<lparr>users = [subscriber ''TR1'' ''08012345678'' ''active'' ExpiryNone,
                  subscriber ''TR2'' ''+2348087654321'' ''active'' ExpiryNone],
         trace = []\<rparr>)) = [''Trader'', ''Trader'']"
proof -
  let ?ev = "provider_env (CreateRaises ''timed out'') ''''"
  let ?b = "\<lparr>users = [subscriber ''TR1'' ''08012345678'' ''active'' ExpiryNone,
                      subscriber ''TR2'' ''+2348087654321'' ''active'' ExpiryNone],
             trace = []\<rparr>"
  have h1: "WhatsAppService_init ?ev = None"
    by (simp add: WhatsAppService_init_def provider_env_def truthy_def)
  have h2: "always_raises ?ev"
    by (simp add: always_raises_def provider_env_def)
  have e: "filter eligible (users ?b) = users ?b"
    by (simp add: eligible_def subscriber_def)
  have d: "map destination (users ?b) = [''whatsapp:+2348012345678'', ''whatsapp:+2348087654321'']"
    by code_simp
  have n: "map name (users ?b) = [''Trader'', ''Trader'']"
    by (simp add: subscriber_def)
  have t: "transport_calls (trace ?b) = []" "failures_logged (trace ?b) = []"
    by (simp_all add: transport_calls_def failures_logged_def)
  from dispatch_failure_isolation [of ?ev example_signal ?b] h1 h2
  have "transport_calls (trace (trigger_alerts ?ev example_signal ?b)) =
          transport_calls (trace ?b) @ map destination (filter eligible (users ?b))"
    and "failures_logged (trace (trigger_alerts ?ev example_signal ?b)) =
          failures_logged (trace ?b) @ map name (filter eligible (users ?b))"
    by blast+
  then show ?thesis unfolding e d n t using h1 h2 by simp
qed

text \<open>
  Claim C8. When either OneSignal variable is unset, \<open>send_push_notification\<close> returns
  \<open>None\<close> for any token and signal, makes no request and logs one line at debug level,
  no warning and no error. A user without a push token gets no push request:
  \<open>trigger_phone_alarm\<close> only logs a debug line, and in either case the step of the
  fan-out for that user adds no request to the push provider.
\<close>

theorem push_not_attempted:
  "(ONESIGNAL_APP_ID ev = '''' \<or> ONESIGNAL_API_KEY ev = '''' \<longrightarrow>
      send_push_notification ev token sig tr = (None, tr @ [Log DEBUG OneSignalNotConfigured]) \<and>
      push_calls (snd (send_push_notification ev token sig tr)) = push_calls tr) \<and>
   (push_token u = '''' \<longrightarrow>
      trigger_phone_alarm ev u sig tr = tr @ [Log DEBUG (NoPushToken (name u))] \<and>
      push_calls (trigger_phone_alarm ev u sig tr) = push_calls tr) \<and>
   (push_token u = '''' \<or> ONESIGNAL_APP_ID ev = '''' \<or> ONESIGNAL_API_KEY ev = '''' \<longrightarrow>
      push_calls (snd (alert_user ev sig u tr)) = push_calls tr)"
proof -
  have "push_calls (tr @ [Log DEBUG m]) = push_calls tr" for m
    by (simp add: push_calls_def map_filter_append)
  then show ?thesis
    using push_alert_user [of u ev sig tr]
    by (auto simp: send_push_notification_def trigger_phone_alarm_def logger_def)
qed

theorem push_not_attempted_witness:
  "ONESIGNAL_APP_ID (provider_env (Created ''SM1'') '''') = '''' \<and>
   send_push_notification (provider_env (Created ''SM1'') '''') ''player-1'' example_signal [] =
     (None, [Log DEBUG OneSignalNotConfigured]) \<and>
   push_token (subscriber ''TR1'' ''08012345678'' ''active'' ExpiryNone) = '''' \<and>
   trigger_phone_alarm (provider_env (Created ''SM1'') ''key'')
     (subscriber ''TR1'' ''08012345678'' ''active'' ExpiryNone) example_signal [] =
     [Log DEBUG (NoPushToken ''Trader'')]"
proof -
  have h1: "ONESIGNAL_APP_ID (provider_env (Created ''SM1'') '''') = ''''"
    by (simp add: provider_env_def)
  have h2: "push_token (subscriber ''TR1'' ''08012345678'' ''active'' ExpiryNone) = ''''"
    by (simp add: subscriber_def)
  have n: "name (subscriber ''TR1'' ''08012345678'' ''active'' ExpiryNone) = ''Trader''"
    by (simp add: subscriber_def)
  from push_not_attempted [of "provider_env (Created ''SM1'') ''''" "''player-1''"
      example_signal "[]" "subscriber ''TR1'' ''08012345678'' ''active'' ExpiryNone"] h1
  have a: "send_push_notification (provider_env (Created ''SM1'') '''') ''player-1''
      example_signal [] = (None, [Log DEBUG OneSignalNotConfigured])"
    by simp
  from push_not_attempted [of "provider_env (Created ''SM1'') ''key''" "''player-1''"
      example_signal "[]" "subscriber ''TR1'' ''08012345678'' ''active'' ExpiryNone"] h2
  have b: "trigger_phone_alarm (provider_env (Created ''SM1'') ''key'')
      (subscriber ''TR1'' ''08012345678'' ''active'' ExpiryNone) example_signal [] =
      [Log DEBUG (NoPushToken ''Trader'')]"
    by (simp add: n)
  from h1 a h2 b show ?thesis by blast
qed

end
